theory Spec2Isabelle
  imports Complex_Main "HOL-Library.AList" "HOL-Library.Sublist"
begin

section \<open>Python values\<close>

text \<open>
  The objects \<^verbatim>\<open>json_data_model.py\<close> receives are parsed JSON documents (with
  \<^verbatim>\<open>datetime.date\<close> objects where a caller builds records by hand). A Python
  \<^verbatim>\<open>str\<close> is a sequence of code points; the model reads a \<^typ>\<open>char\<close> as a
  code point below 256. A \<^verbatim>\<open>float\<close> is not-a-number, an infinity (\<open>True\<close> is
  the positive one) or a finite value, held as the rational it denotes (the sign of zero
  is not tracked). A \<^verbatim>\<open>dict\<close> is an association list in insertion order; a well
  formed one has distinct keys.
\<close>

datatype pyfloat = FNan | FInf bool | FFin rat

datatype pydate = Date (year: nat) (month: nat) (day: nat)

datatype pyval =
    PNone
  | PBool bool
  | PInt int
  | PFloat pyfloat
  | PStr string
  | PList "pyval list"
  | PDict "(string \<times> pyval) list"
  | PDate pydate

text \<open>
  Conversions between floats and text or integers round; they are the interpreter's and
  are taken as parameters: \<open>float_of_int\<close> and \<open>float_of_str\<close> give \<open>None\<close>
  where \<^verbatim>\<open>float(v)\<close> raises (OverflowError for an integer, ValueError for a
  string), \<open>float_repr\<close> is \<^verbatim>\<open>repr\<close> of a float.
\<close>

record float_ops =
  float_of_int :: "int \<Rightarrow> pyfloat option"
  float_of_str :: "string \<Rightarrow> pyfloat option"
  float_repr :: "pyfloat \<Rightarrow> string"

subsection \<open>Whitespace: \<^verbatim>\<open>str.strip()\<close> and \<^verbatim>\<open>re.sub(r"\s+", " ", s)\<close>\<close>

text \<open>
  \<^verbatim>\<open>str.isspace\<close> and the regular expression class \<^verbatim>\<open>\s\<close> agree: below 256
  they hold of the code points 9 to 13, 28 to 32, 133 and 160.
\<close>

definition is_space :: "char \<Rightarrow> bool" where
  "is_space c \<longleftrightarrow> c \<in> set [CHR 0x09, CHR 0x0A, CHR 0x0B, CHR 0x0C, CHR 0x0D,
     CHR 0x1C, CHR 0x1D, CHR 0x1E, CHR 0x1F, CHR 0x20, CHR 0x85, CHR 0xA0]"

definition lstrip :: "string \<Rightarrow> string" where
  "lstrip s = dropWhile is_space s"

definition rstrip :: "string \<Rightarrow> string" where
  "rstrip s = rev (dropWhile is_space (rev s))"

definition strip :: "string \<Rightarrow> string" where
  "strip s = rstrip (lstrip s)"

text \<open>Every maximal run of whitespace is replaced by one space.\<close>

function collapse_ws :: "string \<Rightarrow> string" where
  "collapse_ws [] = []"
| "collapse_ws (c # cs) =
     (if is_space c then CHR 0x20 # collapse_ws (dropWhile is_space cs)
      else c # collapse_ws cs)"
  by pat_completeness auto
termination
  by (relation "measure length") (auto simp: length_dropWhile_le less_Suc_eq_le)

subsection \<open>\<^verbatim>\<open>int(v)\<close>\<close>

datatype 'a conv = Conv 'a | ValueError | TypeError | OverflowErr

text \<open>
  \<^verbatim>\<open>int\<close> of a string skips the whitespace 9 to 13, 32, 133 and 160 at both ends,
  takes an optional sign and then decimal digits, where single underscores may stand
  between digits. The optional limit on the number of digits
  (\<^verbatim>\<open>sys.set_int_max_str_digits\<close>) is taken as switched off.
\<close>

definition int_space :: "char \<Rightarrow> bool" where
  "int_space c \<longleftrightarrow> c \<in> set [CHR 0x09, CHR 0x0A, CHR 0x0B, CHR 0x0C, CHR 0x0D,
     CHR 0x20, CHR 0x85, CHR 0xA0]"

definition digit_of :: "char \<Rightarrow> nat option" where
  "digit_of c = map_of [(CHR ''0'', 0), (CHR ''1'', 1), (CHR ''2'', 2), (CHR ''3'', 3),
     (CHR ''4'', 4), (CHR ''5'', 5), (CHR ''6'', 6), (CHR ''7'', 7), (CHR ''8'', 8),
     (CHR ''9'', 9)] c"

fun dec_digits :: "nat \<Rightarrow> string \<Rightarrow> nat option" where
  "dec_digits acc [] = Some acc"
| "dec_digits acc [c] =
     (case digit_of c of None \<Rightarrow> None | Some n \<Rightarrow> Some (10 * acc + n))"
| "dec_digits acc (c # d # ds) =
     (if c = CHR ''_'' then
        (case digit_of d of None \<Rightarrow> None | Some n \<Rightarrow> dec_digits (10 * acc + n) ds)
      else
        (case digit_of c of None \<Rightarrow> None | Some n \<Rightarrow> dec_digits (10 * acc + n) (d # ds)))"

definition dec_literal :: "string \<Rightarrow> nat option" where
  "dec_literal s =
     (case s of [] \<Rightarrow> None
      | c # cs \<Rightarrow> (case digit_of c of None \<Rightarrow> None | Some n \<Rightarrow> dec_digits n cs))"

definition int_of_str :: "string \<Rightarrow> int option" where
  "int_of_str s =
     (let t = rev (dropWhile int_space (rev (dropWhile int_space s))) in
      case t of [] \<Rightarrow> None
      | c # cs \<Rightarrow>
          if c = CHR ''-'' then map_option (\<lambda>n. - int n) (dec_literal cs)
          else if c = CHR ''+'' then map_option int (dec_literal cs)
          else map_option int (dec_literal t))"

definition trunc :: "rat \<Rightarrow> int" where
  "trunc q = (if 0 \<le> q then \<lfloor>q\<rfloor> else \<lceil>q\<rceil>)"

fun py_int :: "pyval \<Rightarrow> int conv" where
  "py_int PNone = TypeError"
| "py_int (PBool b) = Conv (if b then 1 else 0)"
| "py_int (PInt n) = Conv n"
| "py_int (PFloat FNan) = ValueError"
| "py_int (PFloat (FInf s)) = OverflowErr"
| "py_int (PFloat (FFin q)) = Conv (trunc q)"
| "py_int (PStr s) = (case int_of_str s of None \<Rightarrow> ValueError | Some n \<Rightarrow> Conv n)"
| "py_int (PList xs) = TypeError"
| "py_int (PDict kvs) = TypeError"
| "py_int (PDate d) = TypeError"

subsection \<open>\<^verbatim>\<open>float(v)\<close>\<close>

fun py_float :: "float_ops \<Rightarrow> pyval \<Rightarrow> pyfloat conv" where
  "py_float B PNone = TypeError"
| "py_float B (PBool b) = Conv (FFin (if b then 1 else 0))"
| "py_float B (PInt n) =
     (case float_of_int B n of None \<Rightarrow> OverflowErr | Some f \<Rightarrow> Conv f)"
| "py_float B (PFloat f) = Conv f"
| "py_float B (PStr s) =
     (case float_of_str B s of None \<Rightarrow> ValueError | Some f \<Rightarrow> Conv f)"
| "py_float B (PList xs) = TypeError"
| "py_float B (PDict kvs) = TypeError"
| "py_float B (PDate d) = TypeError"

text \<open>\<^verbatim>\<open>price >= 0\<close>: false of not-a-number.\<close>

fun float_nonneg :: "pyfloat \<Rightarrow> bool" where
  "float_nonneg FNan = False"
| "float_nonneg (FInf s) = s"
| "float_nonneg (FFin q) = (0 \<le> q)"

subsection \<open>\<^verbatim>\<open>repr(v)\<close> and \<^verbatim>\<open>str(v)\<close>\<close>

definition digit_char :: "nat \<Rightarrow> char" where
  "digit_char n = ''0123456789abcdef'' ! n"

function nat_digits :: "nat \<Rightarrow> string" where
  "nat_digits n =
     (if n < 10 then [digit_char n] else nat_digits (n div 10) @ [digit_char (n mod 10)])"
  by pat_completeness auto
termination
  by (relation "measure id") auto

declare nat_digits.simps [simp del]

definition int_repr :: "int \<Rightarrow> string" where
  "int_repr n = (if n < 0 then CHR ''-'' # nat_digits (nat (- n)) else nat_digits (nat n))"

definition zero_pad :: "nat \<Rightarrow> string \<Rightarrow> string" where
  "zero_pad k s = replicate (k - length s) CHR ''0'' @ s"

text \<open>\<^verbatim>\<open>str(d)\<close> of a date is its ISO form, \<^verbatim>\<open>repr(d)\<close> the constructor call.\<close>

definition date_iso :: "pydate \<Rightarrow> string" where
  "date_iso d = zero_pad 4 (nat_digits (year d)) @ ''-'' @ zero_pad 2 (nat_digits (month d))
     @ ''-'' @ zero_pad 2 (nat_digits (day d))"

definition date_repr :: "pydate \<Rightarrow> string" where
  "date_repr d = ''datetime.date('' @ nat_digits (year d) @ '', '' @ nat_digits (month d)
     @ '', '' @ nat_digits (day d) @ '')''"

text \<open>
  \<^verbatim>\<open>repr\<close> of a string: in single quotes, unless it holds a single quote and no
  double quote; the quote and the backslash are escaped, tab, newline and return have
  their letters, and every other code point that is not printable is \<^verbatim>\<open>\xNN\<close>.
\<close>

definition printable :: "char \<Rightarrow> bool" where
  "printable c \<longleftrightarrow> (let n = (of_char c :: nat) in (32 \<le> n \<and> n < 127) \<or> (161 \<le> n \<and> n \<noteq> 173))"

definition escape_char :: "char \<Rightarrow> char \<Rightarrow> string" where
  "escape_char q c =
     (if c = q \<or> c = CHR 0x5C then [CHR 0x5C, c]
      else if c = CHR 0x09 then [CHR 0x5C, CHR ''t'']
      else if c = CHR 0x0A then [CHR 0x5C, CHR ''n'']
      else if c = CHR 0x0D then [CHR 0x5C, CHR ''r'']
      else if printable c then [c]
      else [CHR 0x5C, CHR ''x'', digit_char (of_char c div 16), digit_char (of_char c mod 16)])"

definition str_repr :: "string \<Rightarrow> string" where
  "str_repr s =
     (let q = (if CHR 0x27 \<in> set s \<and> CHR 0x22 \<notin> set s then CHR 0x22 else CHR 0x27)
      in q # concat (map (escape_char q) s) @ [q])"

fun join :: "string \<Rightarrow> string list \<Rightarrow> string" where
  "join sep [] = []"
| "join sep [x] = x"
| "join sep (x # y # ys) = x @ sep @ join sep (y # ys)"

fun py_repr :: "float_ops \<Rightarrow> pyval \<Rightarrow> string" where
  "py_repr B PNone = ''None''"
| "py_repr B (PBool b) = (if b then ''True'' else ''False'')"
| "py_repr B (PInt n) = int_repr n"
| "py_repr B (PFloat f) = float_repr B f"
| "py_repr B (PStr s) = str_repr s"
| "py_repr B (PList xs) = ''['' @ join '', '' (map (py_repr B) xs) @ '']''"
| "py_repr B (PDict kvs) =
     ''{'' @ join '', '' (map (\<lambda>(k, v). str_repr k @ '': '' @ py_repr B v) kvs) @ ''}''"
| "py_repr B (PDate d) = date_repr d"

fun py_str :: "float_ops \<Rightarrow> pyval \<Rightarrow> string" where
  "py_str B (PStr s) = s"
| "py_str B (PDate d) = date_iso d"
| "py_str B v = py_repr B v"

subsection \<open>\<^verbatim>\<open>datetime.strptime(v, fmt).date()\<close>\<close>

text \<open>
  \<^verbatim>\<open>strptime\<close> turns the format into a regular expression, matches it against a
  prefix of the text and refuses text that is left over. The directives used here are
  \<^verbatim>\<open>%Y\<close> (four digits), \<^verbatim>\<open>%m\<close> (\<^verbatim>\<open>1[0-2]|0[1-9]|[1-9]\<close>) and
  \<^verbatim>\<open>%d\<close> (\<^verbatim>\<open>3[0-1]|[1-2]\d|0[1-9]|[1-9]| [1-9]\<close>). The alternatives of a
  directive are tried in this order, later ones when the rest of the format does not
  match after an earlier one; \<open>alts\<close> lists the ways a directive can match, each with
  the number read and the text that follows.
\<close>

datatype directive = DirY | DirM | DirD | Lit char

definition two_digits :: "(nat \<Rightarrow> bool) \<Rightarrow> (nat \<Rightarrow> bool) \<Rightarrow> string \<Rightarrow> (nat \<times> string) list" where
  "two_digits p q s =
     (case s of
        a # b # r \<Rightarrow>
          (case (digit_of a, digit_of b) of
             (Some x, Some y) \<Rightarrow> if p x \<and> q y then [(10 * x + y, r)] else []
           | _ \<Rightarrow> [])
      | _ \<Rightarrow> [])"

definition one_digit :: "string \<Rightarrow> (nat \<times> string) list" where
  "one_digit s =
     (case s of
        a # r \<Rightarrow> (case digit_of a of Some x \<Rightarrow> if 1 \<le> x then [(x, r)] else [] | None \<Rightarrow> [])
      | _ \<Rightarrow> [])"

fun alts :: "directive \<Rightarrow> string \<Rightarrow> (nat \<times> string) list" where
  "alts DirY s =
     (case s of
        a # b # c # d # r \<Rightarrow>
          (case (digit_of a, digit_of b, digit_of c, digit_of d) of
             (Some w, Some x, Some y, Some z) \<Rightarrow> [(1000 * w + 100 * x + 10 * y + z, r)]
           | _ \<Rightarrow> [])
      | _ \<Rightarrow> [])"
| "alts DirM s =
     two_digits (\<lambda>x. x = 1) (\<lambda>y. y \<le> 2) s @ two_digits (\<lambda>x. x = 0) (\<lambda>y. 1 \<le> y) s
     @ one_digit s"
| "alts DirD s =
     two_digits (\<lambda>x. x = 3) (\<lambda>y. y \<le> 1) s @ two_digits (\<lambda>x. x = 1 \<or> x = 2) (\<lambda>y. True) s
     @ two_digits (\<lambda>x. x = 0) (\<lambda>y. 1 \<le> y) s @ one_digit s
     @ (case s of a # r \<Rightarrow> if a = CHR 0x20 then one_digit r else [] | _ \<Rightarrow> [])"
| "alts (Lit c) s = (case s of a # r \<Rightarrow> if a = c then [(0, r)] else [] | _ \<Rightarrow> [])"

fun match_format :: "directive list \<Rightarrow> string \<Rightarrow> ((directive \<times> nat) list \<times> string) list" where
  "match_format [] s = [([], s)]"
| "match_format (f # fs) s =
     concat (map (\<lambda>(n, r). map (\<lambda>(vs, r'). ((f, n) # vs, r')) (match_format fs r)) (alts f s))"

definition is_leap :: "nat \<Rightarrow> bool" where
  "is_leap y \<longleftrightarrow> y mod 4 = 0 \<and> (y mod 100 \<noteq> 0 \<or> y mod 400 = 0)"

definition days_in_month :: "nat \<Rightarrow> nat \<Rightarrow> nat" where
  "days_in_month y m =
     (if m = 2 then (if is_leap y then 29 else 28)
      else if m \<in> set [4, 6, 9, 11] then 30 else 31)"

text \<open>The constructor \<^verbatim>\<open>date(year, month, day)\<close> raises ValueError out of range.\<close>

definition make_date :: "nat \<Rightarrow> nat \<Rightarrow> nat \<Rightarrow> pydate option" where
  "make_date y m d =
     (if 1 \<le> y \<and> y \<le> 9999 \<and> 1 \<le> m \<and> m \<le> 12 \<and> 1 \<le> d \<and> d \<le> days_in_month y m
      then Some (Date y m d) else None)"

text \<open>\<open>None\<close> is a ValueError, the only exception \<^verbatim>\<open>strptime\<close> raises on a string.\<close>

definition strptime :: "string \<Rightarrow> directive list \<Rightarrow> pydate option" where
  "strptime v fmt =
     (case match_format fmt v of
        [] \<Rightarrow> None
      | (vs, rest) # _ \<Rightarrow>
          if rest \<noteq> [] then None
          else (case (map_of vs DirY, map_of vs DirM, map_of vs DirD) of
                  (Some y, Some m, Some d) \<Rightarrow> make_date y m d
                | _ \<Rightarrow> None))"

definition fmt_iso :: "directive list" where
  "fmt_iso = [DirY, Lit CHR ''-'', DirM, Lit CHR ''-'', DirD]"

definition fmt_ymd_slash :: "directive list" where
  "fmt_ymd_slash = [DirY, Lit CHR ''/'', DirM, Lit CHR ''/'', DirD]"

definition fmt_mdy_slash :: "directive list" where
  "fmt_mdy_slash = [DirM, Lit CHR ''/'', DirD, Lit CHR ''/'', DirY]"

section \<open>The Book model\<close>

datatype date_or_str = IsDate pydate | IsStr string

record Book =
  name :: string
  title :: "string option"
  authors :: "string list"
  isbn :: "string option"
  publication_date :: "date_or_str option"
  pages :: "int option"
  price :: "pyfloat option"
  description :: "string option"
  cover_image_url :: "string option"
  purchase_url :: "string option"
  publisher :: "string option"
  genre :: "string option"
  language :: "string option"
  format :: "string option"
  raw_metadata :: "(string \<times> pyval) list"

text \<open>What \<^verbatim>\<open>logger.warning\<close> is called with: the message and the value it shows.\<close>

datatype log =
    Cannot_parse_pages pyval
  | Cannot_parse_price pyval
  | Cannot_parse_date string

text \<open>
  How a construction ends when it fails: with pydantic's ValidationError, which lists
  where each failure is and of which kind, or with an exception that a validator lets
  through.
\<close>

datatype failure = String_type | Dict_type | List_type | Model_type | Missing

datatype loc = Key string | Idx nat

datatype error = ValidationError "(loc list \<times> failure) list" | OverflowError

subsection \<open>Field validators\<close>

definition handle_string_fields :: "float_ops \<Rightarrow> pyval \<Rightarrow> string option" where
  "handle_string_fields B v =
     (if v = PNone \<or> v = PStr [] \<or> (case v of PStr s \<Rightarrow> strip s = [] | _ \<Rightarrow> False) then None
      else case v of
        PStr s \<Rightarrow>
          (let normalized = collapse_ws (strip s)
           in if normalized \<noteq> [] then Some normalized else None)
      | _ \<Rightarrow> Some (py_str B v))"

text \<open>\<^verbatim>\<open>re.split(r"[,;]", v)\<close>: the pieces between the separators, empty ones too.\<close>

fun split_seps :: "string \<Rightarrow> string list" where
  "split_seps [] = [[]]"
| "split_seps (c # cs) =
     (if c = CHR '','' \<or> c = CHR '';'' then [] # split_seps cs
      else (case split_seps cs of p # ps \<Rightarrow> (c # p) # ps | [] \<Rightarrow> [[c]]))"

definition handle_authors_field :: "float_ops \<Rightarrow> pyval \<Rightarrow> string list" where
  "handle_authors_field B v =
     (case v of
        PNone \<Rightarrow> []
      | PStr s \<Rightarrow> map strip (filter (\<lambda>author. strip author \<noteq> []) (split_seps s))
      | PList xs \<Rightarrow>
          map (\<lambda>author. strip (py_str B author))
            (filter (\<lambda>author. strip (py_str B author) \<noteq> []) xs)
      | _ \<Rightarrow> (if strip (py_str B v) \<noteq> [] then [strip (py_str B v)] else []))"

text \<open>
  The validators of \<open>pages\<close> and \<open>price\<close> catch ValueError and TypeError only:
  \<open>Inl OverflowError\<close> is the exception that leaves them.
\<close>

definition handle_pages_field :: "pyval \<Rightarrow> (error + int option) \<times> log list" where
  "handle_pages_field v =
     (if v = PNone \<or> v = PStr [] then (Inr None, [])
      else case py_int v of
        Conv n \<Rightarrow> (Inr (if n > 0 then Some n else None), [])
      | ValueError \<Rightarrow> (Inr None, [Cannot_parse_pages v])
      | TypeError \<Rightarrow> (Inr None, [Cannot_parse_pages v])
      | OverflowErr \<Rightarrow> (Inl OverflowError, []))"

definition handle_price_field :: "float_ops \<Rightarrow> pyval \<Rightarrow> (error + pyfloat option) \<times> log list" where
  "handle_price_field B v =
     (if v = PNone \<or> v = PStr [] then (Inr None, [])
      else case py_float B v of
        Conv x \<Rightarrow> (Inr (if float_nonneg x then Some x else None), [])
      | ValueError \<Rightarrow> (Inr None, [Cannot_parse_price v])
      | TypeError \<Rightarrow> (Inr None, [Cannot_parse_price v])
      | OverflowErr \<Rightarrow> (Inl OverflowError, []))"

definition handle_publication_date_field ::
    "float_ops \<Rightarrow> pyval \<Rightarrow> date_or_str option \<times> log list" where
  "handle_publication_date_field B v =
     (if v = PNone \<or> v = PStr [] then (None, [])
      else case v of
        PDate d \<Rightarrow> (Some (IsDate d), [])
      | PStr s \<Rightarrow>
          (let v' = strip s in
           case strptime v' fmt_iso of
             Some d \<Rightarrow> (Some (IsDate d), [])
           | None \<Rightarrow>
               (case strptime v' fmt_ymd_slash of
                  Some d \<Rightarrow> (Some (IsDate d), [])
                | None \<Rightarrow>
                    (case strptime v' fmt_mdy_slash of
                       Some d \<Rightarrow> (Some (IsDate d), [])
                     | None \<Rightarrow> (Some (IsStr v'), [Cannot_parse_date v']))))
      | _ \<Rightarrow> (Some (IsStr (py_str B v)), []))"

subsection \<open>The model validator\<close>

text \<open>Truth of a value in a condition.\<close>

fun truthy :: "pyval \<Rightarrow> bool" where
  "truthy PNone = False"
| "truthy (PBool b) = b"
| "truthy (PInt n) = (n \<noteq> 0)"
| "truthy (PFloat f) = (f \<noteq> FFin 0)"
| "truthy (PStr s) = (s \<noteq> [])"
| "truthy (PList xs) = (xs \<noteq> [])"
| "truthy (PDict kvs) = (kvs \<noteq> [])"
| "truthy (PDate d) = True"

definition core_fields :: "string list" where
  "core_fields = [''name'', ''title'', ''authors'', ''isbn'', ''publication_date'', ''pages'',
     ''price'', ''description'', ''cover_image_url'', ''purchase_url'', ''publisher'',
     ''genre'', ''language'', ''format'']"

text \<open>
  \<^verbatim>\<open>d[k] = v\<close> is \<^const>\<open>AList.update\<close>: a key that is there keeps its place, a new
  one goes to the end. The loop over \<^verbatim>\<open>data.items()\<close> is a fold.
\<close>

definition extract_raw :: "(string \<times> pyval) list \<Rightarrow> (string \<times> pyval) list" where
  "extract_raw data =
     fold (\<lambda>(key, val) raw. if key \<notin> set core_fields then AList.update key val raw else raw)
       data []"

definition extract_metadata :: "pyval \<Rightarrow> pyval" where
  "extract_metadata data =
     (case data of
        PDict kvs \<Rightarrow>
          (let processed_data = AList.update ''raw_metadata'' (PDict (extract_raw kvs)) kvs
           in PDict
             (case map_of processed_data ''title'' of
                Some t \<Rightarrow>
                  if truthy t then AList.update ''name'' t processed_data
                  else (case map_of processed_data ''name'' of
                          None \<Rightarrow> AList.update ''name'' (PStr ''Untitled Book'') processed_data
                        | Some n \<Rightarrow>
                            if \<not> truthy n
                            then AList.update ''name'' (PStr ''Untitled Book'') processed_data
                            else processed_data)
              | None \<Rightarrow>
                  (case map_of processed_data ''name'' of
                     None \<Rightarrow> AList.update ''name'' (PStr ''Untitled Book'') processed_data
                   | Some n \<Rightarrow>
                       if \<not> truthy n
                       then AList.update ''name'' (PStr ''Untitled Book'') processed_data
                       else processed_data)))
      | _ \<Rightarrow> data)"

subsection \<open>Construction\<close>

text \<open>
  The class is a pydantic model; pydantic is a library, and what it does with the
  declarations of the class is written out here. Constructing a Book from \<open>data\<close>
  runs the model validator (declared with \<^verbatim>\<open>mode="before"\<close>) on the input; what
  comes back must be a mapping (failure \<open>Model_type\<close> otherwise). Then, field by
  field in the order of declaration: a key that is absent gives the field its declared
  default and runs no validator; a key that is present gives its value to the field's
  \<^verbatim>\<open>mode="before"\<close> validator, and the result is checked against the declared type.
  Of the results the validators here can give, only \<open>None\<close> for \<open>name\<close>, declared
  \<^verbatim>\<open>str\<close>, fails that check (\<open>String_type\<close>). Failures of fields are collected
  and construction goes on with the next field; an exception other than ValueError
  leaves at once. Keys that name no field are ignored.
\<close>

definition field :: "(string \<times> pyval) list \<Rightarrow> string \<Rightarrow> 'a \<Rightarrow> (pyval \<Rightarrow> 'a) \<Rightarrow> 'a" where
  "field pd k dflt validator = (case map_of pd k of None \<Rightarrow> dflt | Some v \<Rightarrow> validator v)"

definition as_dict :: "pyval \<Rightarrow> (string \<times> pyval) list option" where
  "as_dict v = (case v of PDict kvs \<Rightarrow> Some kvs | _ \<Rightarrow> None)"

definition Book_fields ::
    "float_ops \<Rightarrow> (string \<times> pyval) list \<Rightarrow> date_or_str option \<Rightarrow> int option \<Rightarrow>
     pyfloat option \<Rightarrow> error + Book" where
  "Book_fields B pd pubdate pgs prc =
     (let sf = (\<lambda>k. field pd k None (handle_string_fields B)) in
      case (field pd ''name'' (Some ''Untitled Book'') (handle_string_fields B),
            field pd ''raw_metadata'' (Some []) as_dict) of
        (Some nm, Some rm) \<Rightarrow>
          Inr \<lparr>name = nm, title = sf ''title'',
               authors = field pd ''authors'' [] (handle_authors_field B),
               isbn = sf ''isbn'', publication_date = pubdate, pages = pgs, price = prc,
               description = sf ''description'', cover_image_url = sf ''cover_image_url'',
               purchase_url = sf ''purchase_url'', publisher = sf ''publisher'',
               genre = sf ''genre'', language = sf ''language'', format = sf ''format'',
               raw_metadata = rm\<rparr>
      | (nm, rm) \<Rightarrow>
          Inl (ValidationError
            ((if nm = None then [([Key ''name''], String_type)] else [])
             @ (if rm = None then [([Key ''raw_metadata''], Dict_type)] else []))))"

definition Book_validate :: "float_ops \<Rightarrow> pyval \<Rightarrow> (error + Book) \<times> log list" where
  "Book_validate B data =
     (case extract_metadata data of
        PDict pd \<Rightarrow>
          (case field pd ''publication_date'' (None, []) (handle_publication_date_field B) of
             (pubdate, l1) \<Rightarrow>
               (case field pd ''pages'' (Inr None, []) handle_pages_field of
                  (Inl e, l2) \<Rightarrow> (Inl e, l1 @ l2)
                | (Inr pgs, l2) \<Rightarrow>
                    (case field pd ''price'' (Inr None, []) (handle_price_field B) of
                       (Inl e, l3) \<Rightarrow> (Inl e, l1 @ l2 @ l3)
                     | (Inr prc, l3) \<Rightarrow> (Book_fields B pd pubdate pgs prc, l1 @ l2 @ l3))))
      | _ \<Rightarrow> (Inl (ValidationError [([], Model_type)]), []))"

subsection \<open>\<^verbatim>\<open>get_all_metadata\<close>\<close>

definition str_of_date_or_str :: "date_or_str \<Rightarrow> string" where
  "str_of_date_or_str x = (case x of IsDate d \<Rightarrow> date_iso d | IsStr s \<Rightarrow> s)"

definition put_some :: "string \<Rightarrow> ('a \<Rightarrow> pyval) \<Rightarrow> 'a option \<Rightarrow> (string \<times> pyval) list \<Rightarrow> (string \<times> pyval) list" where
  "put_some k f x metadata = (case x of None \<Rightarrow> metadata | Some y \<Rightarrow> AList.update k (f y) metadata)"

text \<open>\<^verbatim>\<open>d.update(other)\<close> stores every item of \<open>other\<close> in turn.\<close>

definition dict_update :: "(string \<times> pyval) list \<Rightarrow> (string \<times> pyval) list \<Rightarrow> (string \<times> pyval) list" where
  "dict_update d other = fold (\<lambda>(k, v). AList.update k v) other d"

definition get_all_metadata :: "Book \<Rightarrow> (string \<times> pyval) list" where
  "get_all_metadata b =
     (let metadata = [];
          metadata = put_some ''title'' PStr (title b) metadata;
          metadata = (if authors b \<noteq> []
                      then AList.update ''authors'' (PList (map PStr (authors b))) metadata
                      else metadata);
          metadata = put_some ''isbn'' PStr (isbn b) metadata;
          metadata = put_some ''publication_date'' (\<lambda>d. PStr (str_of_date_or_str d))
                       (publication_date b) metadata;
          metadata = put_some ''pages'' PInt (pages b) metadata;
          metadata = put_some ''price'' PFloat (price b) metadata;
          metadata = put_some ''description'' PStr (description b) metadata;
          metadata = put_some ''cover_image_url'' PStr (cover_image_url b) metadata;
          metadata = put_some ''purchase_url'' PStr (purchase_url b) metadata
      in dict_update metadata (raw_metadata b))"

section \<open>The collection\<close>

record BookCollection =
  books :: "Book list"

text \<open>
  \<^verbatim>\<open>books: list[Book]\<close> has no default: pydantic fails with \<open>Missing\<close> when the key
  is absent and with \<open>List_type\<close> when its value is no list. Every element is
  constructed as a Book; the failures of all elements are collected under the element's
  position, and one failure fails the collection.
\<close>

fun validate_items ::
    "float_ops \<Rightarrow> nat \<Rightarrow> pyval list \<Rightarrow>
     (error + (loc list \<times> failure) list \<times> Book list) \<times> log list" where
  "validate_items B i [] = (Inr ([], []), [])"
| "validate_items B i (x # xs) =
     (case Book_validate B x of
        (Inl OverflowError, l) \<Rightarrow> (Inl OverflowError, l)
      | (Inl (ValidationError es), l) \<Rightarrow>
          (case validate_items B (Suc i) xs of
             (Inl e, l') \<Rightarrow> (Inl e, l @ l')
           | (Inr (es', bs), l') \<Rightarrow>
               (Inr (map (\<lambda>(p, f). (Key ''books'' # Idx i # p, f)) es @ es', bs), l @ l'))
      | (Inr b, l) \<Rightarrow>
          (case validate_items B (Suc i) xs of
             (Inl e, l') \<Rightarrow> (Inl e, l @ l')
           | (Inr (es', bs), l') \<Rightarrow> (Inr (es', b # bs), l @ l')))"

definition BookCollection_validate ::
    "float_ops \<Rightarrow> pyval \<Rightarrow> (error + BookCollection) \<times> log list" where
  "BookCollection_validate B data =
     (case data of
        PDict kvs \<Rightarrow>
          (case map_of kvs ''books'' of
             None \<Rightarrow> (Inl (ValidationError [([Key ''books''], Missing)]), [])
           | Some (PList xs) \<Rightarrow>
               (case validate_items B 0 xs of
                  (Inl e, l) \<Rightarrow> (Inl e, l)
                | (Inr (es, bs), l) \<Rightarrow>
                    (if es = [] then Inr \<lparr>books = bs\<rparr> else Inl (ValidationError es), l))
           | Some _ \<Rightarrow> (Inl (ValidationError [([Key ''books''], List_type)]), []))
      | _ \<Rightarrow> (Inl (ValidationError [([], Model_type)]), []))"

definition get_entities :: "BookCollection \<Rightarrow> Book list" where
  "get_entities c = books c"

section \<open>The registry\<close>

text \<open>
  The registry holds classes; the model is polymorphic in what stands for an entity
  class (\<open>'e\<close>) and a collection class (\<open>'c\<close>). A detection function returns a
  truth value or raises an exception (of class \<^verbatim>\<open>Exception\<close>) with a message.
\<close>

datatype outcome = Returns bool | Raises string

record ('e, 'c) registry =
  entity_classes :: "(string \<times> 'e) list"
  collection_classes :: "(string \<times> 'c) list"
  detection_rules :: "((pyval \<Rightarrow> outcome) \<times> 'c) list"

definition empty_registry :: "('e, 'c) registry" where
  "empty_registry = \<lparr>entity_classes = [], collection_classes = [], detection_rules = []\<rparr>"

definition register_entity_class :: "string \<Rightarrow> 'e \<Rightarrow> ('e, 'c) registry \<Rightarrow> ('e, 'c) registry" where
  "register_entity_class nm entity_class reg =
     reg\<lparr>entity_classes := AList.update nm entity_class (entity_classes reg)\<rparr>"

definition register_collection_class :: "string \<Rightarrow> 'c \<Rightarrow> ('e, 'c) registry \<Rightarrow> ('e, 'c) registry" where
  "register_collection_class nm collection_class reg =
     reg\<lparr>collection_classes := AList.update nm collection_class (collection_classes reg)\<rparr>"

definition register_detection_rule ::
    "(pyval \<Rightarrow> outcome) \<Rightarrow> 'c \<Rightarrow> ('e, 'c) registry \<Rightarrow> ('e, 'c) registry" where
  "register_detection_rule detection_func collection_class reg =
     reg\<lparr>detection_rules := detection_rules reg @ [(detection_func, collection_class)]\<rparr>"

text \<open>What the logger is called with during detection.\<close>

datatype 'c detect_log =
    Detected_format 'c
  | Detection_failed 'c string
  | No_format_detected

fun detect_loop :: "((pyval \<Rightarrow> outcome) \<times> 'c) list \<Rightarrow> pyval \<Rightarrow> 'c option \<times> 'c detect_log list" where
  "detect_loop [] raw_data = (None, [No_format_detected])"
| "detect_loop ((detection_func, collection_class) # rules) raw_data =
     (case detection_func raw_data of
        Returns True \<Rightarrow> (Some collection_class, [Detected_format collection_class])
      | Returns False \<Rightarrow> detect_loop rules raw_data
      | Raises e \<Rightarrow>
          (case detect_loop rules raw_data of
             (r, l) \<Rightarrow> (r, Detection_failed collection_class e # l)))"

definition detect_collection_class :: "('e, 'c) registry \<Rightarrow> pyval \<Rightarrow> 'c option \<times> 'c detect_log list" where
  "detect_collection_class reg raw_data = detect_loop (detection_rules reg) raw_data"

definition get_entity_class :: "('e, 'c) registry \<Rightarrow> string \<Rightarrow> 'e option" where
  "get_entity_class reg nm = map_of (entity_classes reg) nm"

definition get_collection_class :: "('e, 'c) registry \<Rightarrow> string \<Rightarrow> 'c option" where
  "get_collection_class reg nm = map_of (collection_classes reg) nm"

definition get_default_collection_class :: "('e, 'c) registry \<Rightarrow> 'c option" where
  "get_default_collection_class reg =
     (case collection_classes reg of [] \<Rightarrow> None | (nm, c) # _ \<Rightarrow> Some c)"

text \<open>
  \<^verbatim>\<open>"books" in raw_data and isinstance(raw_data["books"], list)\<close>. On a value that
  is no mapping, \<^verbatim>\<open>in\<close> is membership in a list and containment in a string, and
  raises TypeError elsewhere; where it holds, the subscript raises TypeError.
\<close>

definition detect_book_format :: "pyval \<Rightarrow> outcome" where
  "detect_book_format raw_data =
     (case raw_data of
        PDict kvs \<Rightarrow>
          (case map_of kvs ''books'' of Some (PList xs) \<Rightarrow> Returns True | _ \<Rightarrow> Returns False)
      | PList xs \<Rightarrow> if PStr ''books'' \<in> set xs then Raises ''TypeError'' else Returns False
      | PStr s \<Rightarrow> if sublist ''books'' s then Raises ''TypeError'' else Returns False
      | _ \<Rightarrow> Raises ''TypeError'')"

datatype entity_class = Book_class

datatype collection_class = BookCollection_class

text \<open>The registry once the module is loaded.\<close>

definition module_registry :: "(entity_class, collection_class) registry" where
  "module_registry =
     register_detection_rule detect_book_format BookCollection_class
       (register_collection_class ''BookCollection'' BookCollection_class
          (register_entity_class ''Book'' Book_class empty_registry))"

section \<open>Properties\<close>

text \<open>
  Closed examples need a float environment. None of them converts or prints a float, so
  which one it is does not matter; this one converts integers exactly and reads no string.
\<close>

definition plain_floats :: float_ops where
  "plain_floats =
     \<lparr>float_of_int = (\<lambda>n. Some (FFin (of_int n))), float_of_str = (\<lambda>s. None),
      float_repr = (\<lambda>f. ''nan'')\<rparr>"

text \<open>How the claims about whitespace read a string.\<close>

definition no_leading_ws :: "string \<Rightarrow> bool" where
  "no_leading_ws s \<longleftrightarrow> s = [] \<or> \<not> is_space (hd s)"

definition no_trailing_ws :: "string \<Rightarrow> bool" where
  "no_trailing_ws s \<longleftrightarrow> s = [] \<or> \<not> is_space (last s)"

fun no_doubled_ws :: "string \<Rightarrow> bool" where
  "no_doubled_ws (c # d # cs) = (\<not> (is_space c \<and> is_space d) \<and> no_doubled_ws (d # cs))"
| "no_doubled_ws cs = True"

definition only_plain_spaces :: "string \<Rightarrow> bool" where
  "only_plain_spaces s \<longleftrightarrow> list_all (\<lambda>c. \<not> is_space c \<or> c = CHR 0x20) s"

text \<open>
  The value the model validator leaves under \<open>name\<close>: the title when it is there and
  true, else the name when it is there and true, else the sentinel.
\<close>

definition name_source :: "(string \<times> pyval) list \<Rightarrow> pyval" where
  "name_source R =
     (case map_of R ''title'' of
        Some t \<Rightarrow>
          if truthy t then t
          else (case map_of R ''name'' of
                  Some n \<Rightarrow> if truthy n then n else PStr ''Untitled Book''
                | None \<Rightarrow> PStr ''Untitled Book'')
      | None \<Rightarrow>
          (case map_of R ''name'' of
             Some n \<Rightarrow> if truthy n then n else PStr ''Untitled Book''
           | None \<Rightarrow> PStr ''Untitled Book''))"

text \<open>
  The descriptive core fields of a Book as a mapping: each one that is not null, the
  authors when there are any, the publication date as text.
\<close>

definition descriptive_fields :: "Book \<Rightarrow> string \<Rightarrow> pyval option" where
  "descriptive_fields b k =
     (if k = ''title'' then map_option PStr (title b)
      else if k = ''authors''
        then (if authors b = [] then None else Some (PList (map PStr (authors b))))
      else if k = ''isbn'' then map_option PStr (isbn b)
      else if k = ''publication_date''
        then map_option (\<lambda>d. PStr (str_of_date_or_str d)) (publication_date b)
      else if k = ''pages'' then map_option PInt (pages b)
      else if k = ''price'' then map_option PFloat (price b)
      else if k = ''description'' then map_option PStr (description b)
      else if k = ''cover_image_url'' then map_option PStr (cover_image_url b)
      else if k = ''purchase_url'' then map_option PStr (purchase_url b)
      else None)"

text \<open>Scenario A of the specification: a record and the Book it is to give.\<close>

definition hobbit_record :: "(string \<times> pyval) list" where
  "hobbit_record = [(''title'', PStr '' The Hobbit ''), (''authors'', PStr ''J.R.R. Tolkien''),
     (''pages'', PStr ''310''), (''rating'', PFloat (FFin (9 / 2)))]"

definition hobbit_book :: Book where
  "hobbit_book = \<lparr>name = ''The Hobbit'', title = Some ''The Hobbit'',
     authors = [''J.R.R. Tolkien''], isbn = None, publication_date = None, pages = Some 310,
     price = None, description = None, cover_image_url = None, purchase_url = None,
     publisher = None, genre = None, language = None, format = None,
     raw_metadata = [(''rating'', PFloat (FFin (9 / 2)))]\<rparr>"

subsection \<open>Whitespace normalisation\<close>

lemma is_space_blank: "is_space (CHR 0x20)"
  by (simp add: is_space_def)

lemma collapse_ws_fixed:
  "no_doubled_ws s \<Longrightarrow> only_plain_spaces s \<Longrightarrow> collapse_ws s = s"
  by (induction s rule: no_doubled_ws.induct) (auto simp: only_plain_spaces_def)

lemma lstrip_fixed: "no_leading_ws s \<Longrightarrow> dropWhile is_space s = s"
  by (cases s) (auto simp: no_leading_ws_def)

lemma strip_fixed: "no_leading_ws s \<Longrightarrow> no_trailing_ws s \<Longrightarrow> strip s = s"
proof -
  assume a: "no_leading_ws s" "no_trailing_ws s"
  then have "no_leading_ws (rev s)" by (auto simp: no_leading_ws_def no_trailing_ws_def hd_rev)
  with a show ?thesis by (simp add: strip_def lstrip_def rstrip_def lstrip_fixed)
qed

lemma no_doubled_collapse: "no_doubled_ws (collapse_ws s)"
proof (induction s rule: collapse_ws.induct)
  case 1
  then show ?case by simp
next
  case (2 c cs)
  show ?case
  proof (cases "is_space c")
    case True
    show ?thesis
    proof (cases "dropWhile is_space cs")
      case Nil
      with True show ?thesis by (simp del: dropWhile_eq_Nil_conv)
    next
      case (Cons d ds)
      then have "\<not> is_space d" using hd_dropWhile[of is_space cs] by auto
      with True Cons 2 show ?thesis by auto
    qed
  next
    case False
    with 2 show ?thesis by (cases cs) auto
  qed
qed

lemma only_plain_collapse: "only_plain_spaces (collapse_ws s)"
  by (induction s rule: collapse_ws.induct) (auto simp: only_plain_spaces_def)

lemma collapse_ws_Nil: "collapse_ws s = [] \<longleftrightarrow> s = []"
  by (cases s) auto

lemma no_leading_collapse: "no_leading_ws s \<Longrightarrow> no_leading_ws (collapse_ws s)"
  by (cases s) (auto simp: no_leading_ws_def)

lemma last_collapse_ws:
  "s \<noteq> [] \<Longrightarrow> \<not> is_space (last s) \<Longrightarrow> collapse_ws s \<noteq> [] \<and> last (collapse_ws s) = last s"
proof (induction s rule: collapse_ws.induct)
  case 1
  then show ?case by simp
next
  case (2 c cs)
  show ?case
  proof (cases "is_space c")
    case True
    with 2(3,4) have cs: "cs \<noteq> []" "\<not> is_space (last cs)" by (auto split: if_splits)
    then have ne: "dropWhile is_space cs \<noteq> []"
      using last_in_set[of cs] by auto
    have "takeWhile is_space cs @ dropWhile is_space cs = cs" by simp
    with ne have l: "last (dropWhile is_space cs) = last cs"
      by (metis last_appendR)
    from 2(1)[OF True ne] l cs True show ?thesis by simp
  next
    case False
    with 2 show ?thesis by (cases cs) auto
  qed
qed

lemma no_trailing_collapse: "no_trailing_ws s \<Longrightarrow> no_trailing_ws (collapse_ws s)"
  using last_collapse_ws[of s] collapse_ws_Nil[of s] by (auto simp: no_trailing_ws_def)

lemma no_leading_dropWhile: "no_leading_ws (dropWhile is_space s)"
  using hd_dropWhile[of is_space s] by (auto simp: no_leading_ws_def simp del: dropWhile_eq_Nil_conv)

lemma no_trailing_rstrip: "no_trailing_ws (rstrip t)"
  using hd_dropWhile[of is_space "rev t"]
  by (auto simp: no_trailing_ws_def rstrip_def last_rev simp del: dropWhile_eq_Nil_conv)

lemma no_leading_rstrip: "no_leading_ws t \<Longrightarrow> no_leading_ws (rstrip t)"
proof -
  assume a: "no_leading_ws t"
  have "rev (takeWhile is_space (rev t) @ dropWhile is_space (rev t)) = t" by simp
  then have t: "rstrip t @ rev (takeWhile is_space (rev t)) = t"
    by (simp add: rstrip_def del: takeWhile_dropWhile_id)
  show ?thesis
  proof (cases "rstrip t")
    case Nil
    then show ?thesis by (simp add: no_leading_ws_def)
  next
    case (Cons c cs)
    with t have "t = c # cs @ rev (takeWhile is_space (rev t))" by simp
    then have "t \<noteq> [] \<and> hd t = c" by (metis list.sel(1) list.distinct(1))
    with a Cons show ?thesis by (auto simp: no_leading_ws_def)
  qed
qed

lemma no_leading_strip: "no_leading_ws (strip s)"
  by (simp add: strip_def lstrip_def no_leading_rstrip no_leading_dropWhile)

lemma no_trailing_strip: "no_trailing_ws (strip s)"
  by (simp add: strip_def no_trailing_rstrip)

lemma handle_string_fields_normal:
  assumes "handle_string_fields B (PStr s) = Some n"
  shows "n \<noteq> [] \<and> no_leading_ws n \<and> no_trailing_ws n \<and> no_doubled_ws n \<and> only_plain_spaces n
    \<and> n = collapse_ws (strip s)"
  using assms
  by (auto simp: handle_string_fields_def Let_def no_leading_collapse no_trailing_collapse
      no_leading_strip no_trailing_strip no_doubled_collapse only_plain_collapse split: if_splits)

text \<open>
  Claim C9, as amended. A string that is not empty, has no whitespace at either end and
  no two whitespace characters in a row, and whose only whitespace characters are plain
  spaces (code point 32), is returned unchanged by the string normaliser.
\<close>

theorem handle_string_fields_fixed:
  assumes "s \<noteq> []" "no_leading_ws s" "no_trailing_ws s" "no_doubled_ws s" "only_plain_spaces s"
  shows "handle_string_fields B (PStr s) = Some s"
proof -
  from assms(2,3) have "strip s = s" by (rule strip_fixed)
  moreover from assms(4,5) have "collapse_ws s = s" by (rule collapse_ws_fixed)
  ultimately show ?thesis using assms(1) by (simp add: handle_string_fields_def)
qed

theorem handle_string_fields_fixed_witness:
  "''The Hobbit'' \<noteq> [] \<and> no_leading_ws ''The Hobbit'' \<and> no_trailing_ws ''The Hobbit''
   \<and> no_doubled_ws ''The Hobbit'' \<and> only_plain_spaces ''The Hobbit''
   \<and> handle_string_fields plain_floats (PStr ''The Hobbit'') = Some ''The Hobbit''"
  using handle_string_fields_fixed[of "''The Hobbit''" plain_floats]
  by (simp add: no_leading_ws_def no_trailing_ws_def only_plain_spaces_def is_space_def)

text \<open>
  Claim C9 as stated fails: a tab between two letters is neither leading, trailing nor
  doubled whitespace, and it is replaced by a space; the empty string has no whitespace
  at all and is turned into \<open>None\<close>.
\<close>

theorem handle_string_fields_fixed_counterexample:
  "no_leading_ws [CHR ''a'', CHR 0x09, CHR ''b''] \<and> no_trailing_ws [CHR ''a'', CHR 0x09, CHR ''b'']
   \<and> no_doubled_ws [CHR ''a'', CHR 0x09, CHR ''b'']
   \<and> handle_string_fields plain_floats (PStr [CHR ''a'', CHR 0x09, CHR ''b'']) = Some ''a b''
   \<and> handle_string_fields plain_floats (PStr [CHR ''a'', CHR 0x09, CHR ''b''])
       \<noteq> Some [CHR ''a'', CHR 0x09, CHR ''b'']
   \<and> no_leading_ws [] \<and> no_trailing_ws [] \<and> no_doubled_ws []
   \<and> handle_string_fields plain_floats (PStr []) = None"
  by (simp add: no_leading_ws_def no_trailing_ws_def is_space_def handle_string_fields_def
      strip_def lstrip_def rstrip_def)

subsection \<open>The model validator and construction\<close>

lemma map_of_extract_fold:
  "map_of (fold (\<lambda>(key, val) raw. if key \<notin> set core_fields then AList.update key val raw else raw) R acc) k =
     (if k \<in> set core_fields then map_of acc k
      else (case map_of (rev R) k of Some v \<Rightarrow> Some v | None \<Rightarrow> map_of acc k))"
proof (induction R arbitrary: acc)
  case Nil
  then show ?case by simp
next
  case (Cons x R)
  obtain key val where x: "x = (key, val)" by (cases x)
  show ?case
    unfolding x by (simp add: Cons update_conv' map_add_def split: option.splits)
qed

lemma map_of_extract_raw:
  "map_of (extract_raw R) k = (if k \<in> set core_fields then None else map_of (rev R) k)"
  by (simp add: extract_raw_def map_of_extract_fold split: option.splits)

lemma map_of_rev_distinct: "distinct (map fst R) \<Longrightarrow> map_of (rev R) = map_of R"
  by (simp add: map_of_inject_set distinct_rev rev_map[symmetric])


lemma extract_metadata_dict:
  "\<exists>pd. extract_metadata (PDict R) = PDict pd \<and>
     map_of pd = (map_of R)(''raw_metadata'' \<mapsto> PDict (extract_raw R), ''name'' \<mapsto> name_source R)"
proof -
  let ?p = "AList.update ''raw_metadata'' (PDict (extract_raw R)) R"
  have t: "map_of ?p ''title'' = map_of R ''title''" and n: "map_of ?p ''name'' = map_of R ''name''"
    by (simp_all add: update_conv')
  have p: "map_of ?p = (map_of R)(''raw_metadata'' \<mapsto> PDict (extract_raw R))"
    by (simp add: update_conv')
  have keep: "map_of R ''name'' = Some v \<Longrightarrow>
      (map_of R)(''raw_metadata'' \<mapsto> X, ''name'' \<mapsto> v) = (map_of R)(''raw_metadata'' \<mapsto> X)" for v X
    by (rule ext) simp
  show ?thesis
    unfolding extract_metadata_def name_source_def Let_def pyval.case t n
    by (cases "map_of R ''title''"; cases "map_of R ''name''")
       (simp_all add: update_conv' p keep del: fun_upd_apply)
qed


lemma Book_validate_not_dict:
  "\<forall>R. data \<noteq> PDict R \<Longrightarrow> Book_validate B data = (Inl (ValidationError [([], Model_type)]), [])"
  by (cases data) (simp_all add: Book_validate_def extract_metadata_def)

lemma Book_validate_PDict:
  "Book_validate B (PDict R) =
     (case field R ''publication_date'' (None, []) (handle_publication_date_field B) of
        (pubdate, l1) \<Rightarrow>
          (case field R ''pages'' (Inr None, []) handle_pages_field of
             (Inl e, l2) \<Rightarrow> (Inl e, l1 @ l2)
           | (Inr pgs, l2) \<Rightarrow>
               (case field R ''price'' (Inr None, []) (handle_price_field B) of
                  (Inl e, l3) \<Rightarrow> (Inl e, l1 @ l2 @ l3)
                | (Inr prc, l3) \<Rightarrow>
                    (case handle_string_fields B (name_source R) of
                       None \<Rightarrow> Inl (ValidationError [([Key ''name''], String_type)])
                     | Some nm \<Rightarrow>
                         Inr \<lparr>name = nm, title = field R ''title'' None (handle_string_fields B),
                              authors = field R ''authors'' [] (handle_authors_field B),
                              isbn = field R ''isbn'' None (handle_string_fields B),
                              publication_date = pubdate, pages = pgs, price = prc,
                              description = field R ''description'' None (handle_string_fields B),
                              cover_image_url = field R ''cover_image_url'' None (handle_string_fields B),
                              purchase_url = field R ''purchase_url'' None (handle_string_fields B),
                              publisher = field R ''publisher'' None (handle_string_fields B),
                              genre = field R ''genre'' None (handle_string_fields B),
                              language = field R ''language'' None (handle_string_fields B),
                              format = field R ''format'' None (handle_string_fields B),
                              raw_metadata = extract_raw R\<rparr>,
                     l1 @ l2 @ l3))))"
proof -
  obtain pd where pd: "extract_metadata (PDict R) = PDict pd"
    and m: "map_of pd = (map_of R)(''raw_metadata'' \<mapsto> PDict (extract_raw R), ''name'' \<mapsto> name_source R)"
    using extract_metadata_dict by blast
  have f: "field pd k d h = (if k = ''name'' then h (name_source R)
             else if k = ''raw_metadata'' then h (PDict (extract_raw R)) else field R k d h)" for k d h
    by (simp add: field_def m)
  have bf: "Book_fields B pd pubdate pgs prc =
      (case handle_string_fields B (name_source R) of
         None \<Rightarrow> Inl (ValidationError [([Key ''name''], String_type)])
       | Some nm \<Rightarrow>
           Inr \<lparr>name = nm, title = field R ''title'' None (handle_string_fields B),
                authors = field R ''authors'' [] (handle_authors_field B),
                isbn = field R ''isbn'' None (handle_string_fields B),
                publication_date = pubdate, pages = pgs, price = prc,
                description = field R ''description'' None (handle_string_fields B),
                cover_image_url = field R ''cover_image_url'' None (handle_string_fields B),
                purchase_url = field R ''purchase_url'' None (handle_string_fields B),
                publisher = field R ''publisher'' None (handle_string_fields B),
                genre = field R ''genre'' None (handle_string_fields B),
                language = field R ''language'' None (handle_string_fields B),
                format = field R ''format'' None (handle_string_fields B),
                raw_metadata = extract_raw R\<rparr>)" for pubdate pgs prc
    unfolding Book_fields_def Let_def f by (simp add: as_dict_def split: option.splits)
  show ?thesis
    unfolding Book_validate_def pd pyval.case bf f by simp
qed


lemma Book_validate_Inr:
  assumes "Book_validate B data = (Inr b, l)"
  shows "\<exists>R. data = PDict R \<and> raw_metadata b = extract_raw R
           \<and> handle_string_fields B (name_source R) = Some (name b)
           \<and> title b = field R ''title'' None (handle_string_fields B)"
proof (cases "\<exists>R. data = PDict R")
  case True
  then obtain R where R: "data = PDict R" by blast
  from assms show ?thesis
    unfolding R Book_validate_PDict
    by (auto split: prod.splits sum.splits option.splits)
next
  case False
  then show ?thesis using assms Book_validate_not_dict[of data B] by simp
qed

lemma distinct_extract_fold:
  "distinct (map fst acc) \<Longrightarrow>
   distinct (map fst (fold (\<lambda>(key, val) raw. if key \<notin> set core_fields then AList.update key val raw else raw) R acc))"
  by (induction R arbitrary: acc) (auto simp: distinct_update split: prod.splits)

lemma distinct_extract_raw: "distinct (map fst (extract_raw R))"
  by (simp add: extract_raw_def distinct_extract_fold)

lemma dom_extract_raw: "fst ` set (extract_raw R) = fst ` set R - set core_fields"
proof -
  have "dom (map_of (extract_raw R)) = dom (map_of (rev R)) - set core_fields"
    by (auto simp: dom_def map_of_extract_raw split: if_splits)
  then show ?thesis by (simp add: dom_map_of_conv_image_fst)
qed

lemma map_of_put_some:
  "map_of (put_some k f x m) k' =
     (if k' = k then (case x of None \<Rightarrow> map_of m k | Some y \<Rightarrow> Some (f y)) else map_of m k')"
  by (simp add: put_some_def update_conv' split: option.splits)

lemma map_of_dict_update: "map_of (dict_update d other) = map_of d ++ map_of (rev other)"
  unfolding dict_update_def
proof (induction other arbitrary: d)
  case Nil
  then show ?case by simp
next
  case (Cons x other)
  then show ?case by (cases x) (simp add: update_conv' map_add_def fun_eq_iff split: option.splits)
qed

lemma map_of_core_metadata:
  "map_of (get_all_metadata (b\<lparr>raw_metadata := []\<rparr>)) k = descriptive_fields b k"
  by (simp add: get_all_metadata_def Let_def dict_update_def map_of_put_some update_conv'
      descriptive_fields_def split: option.splits)

subsection \<open>Scenario A\<close>

lemma hobbit_title: "handle_string_fields B (PStr '' The Hobbit '') = Some ''The Hobbit''"
  by (simp add: handle_string_fields_def strip_def lstrip_def rstrip_def is_space_def)

lemma hobbit_authors: "handle_authors_field B (PStr ''J.R.R. Tolkien'') = [''J.R.R. Tolkien'']"
  by (simp add: handle_authors_field_def strip_def lstrip_def rstrip_def is_space_def)

lemma hobbit_pages: "handle_pages_field (PStr ''310'') = (Inr (Some 310), [])"
  by (simp add: handle_pages_field_def int_of_str_def int_space_def dec_literal_def digit_of_def)

lemma hobbit_raw: "extract_raw hobbit_record = [(''rating'', PFloat (FFin (9 / 2)))]"
  by (simp add: extract_raw_def hobbit_record_def core_fields_def)

lemma scenario_A: "Book_validate plain_floats (PDict hobbit_record) = (Inr hobbit_book, [])"
  unfolding Book_validate_PDict hobbit_raw
  by (simp add: hobbit_record_def hobbit_book_def field_def name_source_def hobbit_title hobbit_authors hobbit_pages)

text \<open>
  Claim C1. When a Book is constructed from a mapping \<open>R\<close> (a dict, so with distinct
  keys): every item of \<open>R\<close> whose key is no core field is in \<open>raw_metadata\<close> with its
  value unchanged; every key of \<open>R\<close> is a core field or a key of \<open>raw_metadata\<close>; and
  no core field is a key of \<open>raw_metadata\<close>.
\<close>

theorem raw_metadata_partition:
  assumes "Book_validate B (PDict R) = (Inr b, l)" and "distinct (map fst R)"
  shows "(\<forall>k v. (k, v) \<in> set R \<and> k \<notin> set core_fields \<longrightarrow> map_of (raw_metadata b) k = Some v)
    \<and> fst ` set R \<subseteq> set core_fields \<union> fst ` set (raw_metadata b)
    \<and> set core_fields \<inter> fst ` set (raw_metadata b) = {}"
proof -
  from Book_validate_Inr[OF assms(1)] have rm: "raw_metadata b = extract_raw R" by simp
  have "map_of (raw_metadata b) k = Some v" if "(k, v) \<in> set R" "k \<notin> set core_fields" for k v
    using that assms(2) by (simp add: rm map_of_extract_raw map_of_rev_distinct)
  moreover have "fst ` set R \<subseteq> set core_fields \<union> fst ` set (raw_metadata b)"
    unfolding rm dom_extract_raw by blast
  moreover have "set core_fields \<inter> fst ` set (raw_metadata b) = {}"
    unfolding rm dom_extract_raw by blast
  ultimately show ?thesis by blast
qed

theorem raw_metadata_partition_witness:
  "Book_validate plain_floats (PDict hobbit_record) = (Inr hobbit_book, [])
   \<and> distinct (map fst hobbit_record)
   \<and> map_of (raw_metadata hobbit_book) ''rating'' = Some (PFloat (FFin (9 / 2)))
   \<and> ''title'' \<notin> fst ` set (raw_metadata hobbit_book)"
proof -
  have d: "distinct (map fst hobbit_record)" by (simp add: hobbit_record_def)
  from raw_metadata_partition[OF scenario_A d] scenario_A d show ?thesis
    by (simp add: hobbit_record_def hobbit_book_def core_fields_def)
qed


subsection \<open>The metadata view\<close>

lemma descriptive_fields_not_core:
  "k \<notin> set core_fields \<Longrightarrow> descriptive_fields b k = None"
  by (simp add: descriptive_fields_def core_fields_def)

lemma descriptive_fields_nav:
  "descriptive_fields b ''publisher'' = None" "descriptive_fields b ''genre'' = None"
  "descriptive_fields b ''language'' = None" "descriptive_fields b ''format'' = None"
  "descriptive_fields b ''name'' = None"
  by (simp_all add: descriptive_fields_def)

lemma extract_raw_core: "k \<in> set core_fields \<Longrightarrow> map_of (extract_raw R) k = None"
  by (simp add: map_of_extract_raw)

lemma nav_core:
  "''publisher'' \<in> set core_fields" "''genre'' \<in> set core_fields"
  "''language'' \<in> set core_fields" "''format'' \<in> set core_fields" "''name'' \<in> set core_fields"
  by (simp_all add: core_fields_def)

text \<open>
  Claim C4. For every constructed Book, \<open>get_all_metadata\<close> is the mapping of the
  descriptive core fields that are not null (authors when not empty, the publication date
  as text) together with all of \<open>raw_metadata\<close>; the two never share a key; and the
  keys publisher, genre, language, format and name are not in it.
\<close>

theorem get_all_metadata_view:
  assumes "Book_validate B data = (Inr b, l)"
  shows "map_of (get_all_metadata b) = descriptive_fields b ++ map_of (raw_metadata b)
    \<and> dom (descriptive_fields b) \<inter> dom (map_of (raw_metadata b)) = {}
    \<and> map_of (get_all_metadata b) ''publisher'' = None
    \<and> map_of (get_all_metadata b) ''genre'' = None
    \<and> map_of (get_all_metadata b) ''language'' = None
    \<and> map_of (get_all_metadata b) ''format'' = None
    \<and> map_of (get_all_metadata b) ''name'' = None"
proof -
  from Book_validate_Inr[OF assms] obtain R where rm: "raw_metadata b = extract_raw R" by blast
  have m: "map_of (get_all_metadata b) = descriptive_fields b ++ map_of (raw_metadata b)"
  proof -
    have "get_all_metadata b = dict_update (get_all_metadata (b\<lparr>raw_metadata := []\<rparr>)) (raw_metadata b)"
      by (simp add: get_all_metadata_def Let_def dict_update_def)
    then have "map_of (get_all_metadata b)
        = map_of (get_all_metadata (b\<lparr>raw_metadata := []\<rparr>)) ++ map_of (rev (raw_metadata b))"
      by (simp only: map_of_dict_update)
    also have "map_of (get_all_metadata (b\<lparr>raw_metadata := []\<rparr>)) = descriptive_fields b"
      by (rule ext) (rule map_of_core_metadata)
    also have "map_of (rev (raw_metadata b)) = map_of (raw_metadata b)"
      unfolding rm by (rule map_of_rev_distinct) (rule distinct_extract_raw)
    finally show ?thesis .
  qed
  have disj: "dom (descriptive_fields b) \<inter> dom (map_of (raw_metadata b)) = {}"
  proof -
    have either: "descriptive_fields b k = None \<or> map_of (raw_metadata b) k = None" for k
    proof (cases "k \<in> set core_fields")
      case True
      then have "map_of (raw_metadata b) k = None" unfolding rm by (rule extract_raw_core)
      then show ?thesis ..
    next
      case False
      then have "descriptive_fields b k = None" by (rule descriptive_fields_not_core)
      then show ?thesis ..
    qed
    have "k \<notin> dom (map_of (raw_metadata b))" if "k \<in> dom (descriptive_fields b)" for k
    proof -
      from that have "descriptive_fields b k \<noteq> None" by (simp add: domIff)
      with either[of k] have "map_of (raw_metadata b) k = None" by simp
      then show ?thesis by (simp add: domIff)
    qed
    then show ?thesis by (simp add: disjoint_iff)
  qed
  have nav: "map_of (get_all_metadata b) k = None"
    if "k \<in> set core_fields" "descriptive_fields b k = None" for k
    using that extract_raw_core[of k R] unfolding m rm by (simp add: map_add_def)
  show ?thesis
    using m disj nav[OF nav_core(1) descriptive_fields_nav(1)]
      nav[OF nav_core(2) descriptive_fields_nav(2)] nav[OF nav_core(3) descriptive_fields_nav(3)]
      nav[OF nav_core(4) descriptive_fields_nav(4)] nav[OF nav_core(5) descriptive_fields_nav(5)]
    by (intro conjI)
qed

theorem get_all_metadata_view_witness:
  "Book_validate plain_floats (PDict hobbit_record) = (Inr hobbit_book, [])
   \<and> map_of (get_all_metadata hobbit_book)
       = descriptive_fields hobbit_book ++ map_of (raw_metadata hobbit_book)
   \<and> get_all_metadata hobbit_book = [(''title'', PStr ''The Hobbit''),
        (''authors'', PList [PStr ''J.R.R. Tolkien'']), (''pages'', PInt 310),
        (''rating'', PFloat (FFin (9 / 2)))]"
proof -
  have g: "get_all_metadata hobbit_book = [(''title'', PStr ''The Hobbit''),
        (''authors'', PList [PStr ''J.R.R. Tolkien'']), (''pages'', PInt 310),
        (''rating'', PFloat (FFin (9 / 2)))]"
    by (simp add: get_all_metadata_def hobbit_book_def put_some_def dict_update_def)
  from get_all_metadata_view[OF scenario_A]
  have a: "map_of (get_all_metadata hobbit_book)
       = descriptive_fields hobbit_book ++ map_of (raw_metadata hobbit_book)"
    by (rule conjunct1)
  show ?thesis by (intro conjI) (rule scenario_A, rule a, rule g)
qed

subsection \<open>Detection\<close>

lemma find_append_first:
  "find P (xs @ ys) = (case find P xs of None \<Rightarrow> find P ys | Some x \<Rightarrow> Some x)"
  by (induction xs) simp_all

lemma detect_loop_result:
  "fst (detect_loop rules raw) = map_option snd (find (\<lambda>(f, c). f raw = Returns True) rules)"
proof (induction rules)
  case Nil
  then show ?case by simp
next
  case (Cons r rules)
  obtain f c where r: "r = (f, c)" by (cases r)
  show ?case
  proof (cases "f raw")
    case (Returns t)
    with Cons r show ?thesis by (cases t) simp_all
  next
    case (Raises e)
    obtain x y where "detect_loop rules raw = (x, y)" by (cases "detect_loop rules raw")
    with Raises Cons r show ?thesis by simp
  qed
qed

lemma detect_loop_log:
  "snd (detect_loop rules raw) =
     concat (map (\<lambda>(f, c). case f raw of Raises e \<Rightarrow> [Detection_failed c e] | Returns t \<Rightarrow> [])
               (takeWhile (\<lambda>(f, c). f raw \<noteq> Returns True) rules))
     @ [case find (\<lambda>(f, c). f raw = Returns True) rules of
          None \<Rightarrow> No_format_detected | Some (f, c) \<Rightarrow> Detected_format c]"
proof (induction rules)
  case Nil
  then show ?case by simp
next
  case (Cons r rules)
  obtain f c where r: "r = (f, c)" by (cases r)
  show ?case
  proof (cases "f raw")
    case (Returns t)
    with Cons r show ?thesis by (cases t) simp_all
  next
    case (Raises e)
    obtain x y where "detect_loop rules raw = (x, y)" by (cases "detect_loop rules raw")
    with Raises Cons r show ?thesis by simp
  qed
qed

text \<open>
  Claim C5. Detection goes through the rules in the order of registration: its result is
  the collection class of the first rule whose predicate returns true, and \<open>None\<close>
  when there is none; a rule whose predicate raises is logged and skipped. A rule is
  registered behind the ones already there, so of two rules that match, the one
  registered first wins.
\<close>

theorem detect_collection_class_first_match:
  "fst (detect_collection_class reg raw)
     = map_option snd (find (\<lambda>(f, c). f raw = Returns True) (detection_rules reg))
   \<and> snd (detect_collection_class reg raw)
     = concat (map (\<lambda>(f, c). case f raw of Raises e \<Rightarrow> [Detection_failed c e] | Returns t \<Rightarrow> [])
               (takeWhile (\<lambda>(f, c). f raw \<noteq> Returns True) (detection_rules reg)))
       @ [case find (\<lambda>(f, c). f raw = Returns True) (detection_rules reg) of
            None \<Rightarrow> No_format_detected | Some (f, c) \<Rightarrow> Detected_format c]
   \<and> detection_rules (register_detection_rule f2 c2 (register_detection_rule f1 c1 reg))
     = detection_rules reg @ [(f1, c1), (f2, c2)]
   \<and> (f1 raw = Returns True \<longrightarrow> (\<forall>r \<in> set (detection_rules reg). fst r raw \<noteq> Returns True) \<longrightarrow>
        fst (detect_collection_class
              (register_detection_rule f2 c2 (register_detection_rule f1 c1 reg)) raw) = Some c1)"
proof -
  have o: "detection_rules (register_detection_rule f2 c2 (register_detection_rule f1 c1 reg))
     = detection_rules reg @ [(f1, c1), (f2, c2)]"
    by (simp add: register_detection_rule_def)
  have w: "fst (detect_collection_class
              (register_detection_rule f2 c2 (register_detection_rule f1 c1 reg)) raw) = Some c1"
    if "f1 raw = Returns True" "\<forall>r \<in> set (detection_rules reg). fst r raw \<noteq> Returns True"
  proof -
    from that(2) have "find (\<lambda>(f, c). f raw = Returns True) (detection_rules reg) = None"
      by (auto simp: find_None_iff)
    with that(1) show ?thesis
      by (simp add: detect_collection_class_def detect_loop_result o find_append_first)
  qed
  show ?thesis
    using o w by (simp add: detect_collection_class_def detect_loop_result detect_loop_log)
qed

theorem detect_collection_class_first_match_witness:
  "(\<lambda>d. Returns True) PNone = Returns True
   \<and> fst (detect_collection_class
        (register_detection_rule (\<lambda>d. Returns True) (2::nat)
          (register_detection_rule (\<lambda>d. Returns True) 1
            (register_detection_rule (\<lambda>d. Raises ''boom'') 0 (empty_registry :: (unit, nat) registry))))
        PNone) = Some 1
   \<and> detect_collection_class module_registry (PDict [(''albums'', PList [])])
       = (None, [No_format_detected])"
proof -
  let ?reg = "register_detection_rule (\<lambda>d. Raises ''boom'') 0 (empty_registry :: (unit, nat) registry)"
  have a: "\<forall>r \<in> set (detection_rules ?reg). fst r PNone \<noteq> Returns True"
    by (simp add: register_detection_rule_def empty_registry_def)
  have b: "(\<lambda>d. Returns True) PNone = Returns True" by simp
  from detect_collection_class_first_match[of ?reg PNone "\<lambda>d. Returns True" 2 "\<lambda>d. Returns True" 1]
  have c: "fst (detect_collection_class
        (register_detection_rule (\<lambda>d. Returns True) (2::nat)
          (register_detection_rule (\<lambda>d. Returns True) 1 ?reg)) PNone) = Some 1"
    using a b by blast
  have d: "detect_collection_class module_registry (PDict [(''albums'', PList [])])
       = (None, [No_format_detected])"
    by (simp add: detect_collection_class_def module_registry_def register_detection_rule_def
        register_collection_class_def register_entity_class_def empty_registry_def
        detect_book_format_def)
  from c d show ?thesis by simp
qed

subsection \<open>The publication date\<close>

text \<open>
  Claim C8. The publication date: null and the empty string give null; a date is kept as
  it is; any other string is stripped and tried against the formats YYYY-MM-DD,
  YYYY/MM/DD and MM/DD/YYYY in this order, the first one that parses giving the date, and
  when none does the stripped string is kept and a warning is logged; a value of any
  other type is turned into its text.
\<close>

theorem handle_publication_date_field_cases:
  "handle_publication_date_field B PNone = (None, [])
   \<and> handle_publication_date_field B (PStr []) = (None, [])
   \<and> handle_publication_date_field B (PDate d) = (Some (IsDate d), [])
   \<and> (s \<noteq> [] \<longrightarrow>
        handle_publication_date_field B (PStr s) =
          (case List.map_filter (strptime (strip s)) [fmt_iso, fmt_ymd_slash, fmt_mdy_slash] of
             d # ds \<Rightarrow> (Some (IsDate d), [])
           | [] \<Rightarrow> (Some (IsStr (strip s)), [Cannot_parse_date (strip s)])))
   \<and> (v \<noteq> PNone \<longrightarrow> (\<forall>s. v \<noteq> PStr s) \<longrightarrow> (\<forall>d. v \<noteq> PDate d) \<longrightarrow>
        handle_publication_date_field B v = (Some (IsStr (py_str B v)), []))"
proof -
  have a: "handle_publication_date_field B (PStr s) =
          (case List.map_filter (strptime (strip s)) [fmt_iso, fmt_ymd_slash, fmt_mdy_slash] of
             d # ds \<Rightarrow> (Some (IsDate d), [])
           | [] \<Rightarrow> (Some (IsStr (strip s)), [Cannot_parse_date (strip s)]))" if "s \<noteq> []"
    using that
    by (simp add: handle_publication_date_field_def Let_def List.map_filter_simps
        split: option.splits)
  have b: "handle_publication_date_field B v = (Some (IsStr (py_str B v)), [])"
    if "v \<noteq> PNone" "\<forall>s. v \<noteq> PStr s" "\<forall>d. v \<noteq> PDate d"
    using that by (cases v) (simp_all add: handle_publication_date_field_def)
  show ?thesis
    using a b by (simp add: handle_publication_date_field_def)
qed

lemma strptime_iso_example: "strptime ''2020-01-05'' fmt_iso = Some (Date 2020 1 5)"
  by (simp add: strptime_def fmt_iso_def two_digits_def one_digit_def digit_of_def make_date_def
      days_in_month_def is_leap_def)

lemma strptime_us_example:
  "strptime ''1/2/2020'' fmt_iso = None" "strptime ''1/2/2020'' fmt_ymd_slash = None"
  "strptime ''1/2/2020'' fmt_mdy_slash = Some (Date 2020 1 2)"
  by (simp_all add: strptime_def fmt_iso_def fmt_ymd_slash_def fmt_mdy_slash_def two_digits_def
      one_digit_def digit_of_def make_date_def days_in_month_def is_leap_def)

lemma strptime_none_example:
  "strptime ''Jan 2020'' fmt_iso = None" "strptime ''Jan 2020'' fmt_ymd_slash = None"
  "strptime ''Jan 2020'' fmt_mdy_slash = None"
  by (simp_all add: strptime_def fmt_iso_def fmt_ymd_slash_def fmt_mdy_slash_def two_digits_def
      one_digit_def digit_of_def)


lemma strip_examples: "strip ''1/2/2020'' = ''1/2/2020''" "strip ''Jan 2020'' = ''Jan 2020''"
  by (simp_all add: strip_def lstrip_def rstrip_def is_space_def)

theorem handle_publication_date_field_cases_witness:
  "''1/2/2020'' \<noteq> []
   \<and> handle_publication_date_field plain_floats (PStr ''1/2/2020'')
       = (Some (IsDate (Date 2020 1 2)), [])
   \<and> handle_publication_date_field plain_floats (PStr ''Jan 2020'')
       = (Some (IsStr ''Jan 2020''), [Cannot_parse_date ''Jan 2020''])
   \<and> PInt 2020 \<noteq> PNone
   \<and> handle_publication_date_field plain_floats (PInt 2020) = (Some (IsStr ''2020''), [])"
proof -
  have i: "int_repr 2020 = ''2020''"
    by (simp add: int_repr_def digit_char_def nat_digits.simps)
  from handle_publication_date_field_cases[of plain_floats "Date 2020 1 2" "''1/2/2020''" "PInt 2020"]
  have a: "handle_publication_date_field plain_floats (PStr ''1/2/2020'')
       = (Some (IsDate (Date 2020 1 2)), [])"
    and c: "handle_publication_date_field plain_floats (PInt 2020) = (Some (IsStr ''2020''), [])"
    by (simp_all add: strip_examples strptime_us_example List.map_filter_simps i)
  from handle_publication_date_field_cases[of plain_floats "Date 2020 1 2" "''Jan 2020''" "PInt 2020"]
  have b: "handle_publication_date_field plain_floats (PStr ''Jan 2020'')
       = (Some (IsStr ''Jan 2020''), [Cannot_parse_date ''Jan 2020''])"
    by (simp add: strip_examples strptime_none_example List.map_filter_simps)
  from a b c show ?thesis by simp
qed

subsection \<open>The collection\<close>

lemma Book_validate_errors_nonempty:
  assumes "Book_validate B x = (Inl (ValidationError es), l)"
  shows "es \<noteq> []"
proof (cases "\<exists>R. x = PDict R")
  case True
  then obtain R where R: "x = PDict R" by blast
  from assms show ?thesis
    unfolding R Book_validate_PDict
    by (auto simp: handle_pages_field_def handle_price_field_def field_def
        split: prod.splits sum.splits option.splits if_splits conv.splits)
next
  case False
  with assms show ?thesis using Book_validate_not_dict[of x B] by simp
qed

lemma validate_items_Inr:
  "validate_items B i xs = (Inr (es, bs), l) \<Longrightarrow>
     (es = [] \<longrightarrow> map (\<lambda>x. fst (Book_validate B x)) xs = map Inr bs) \<and>
     ((\<exists>x \<in> set xs. \<exists>e. fst (Book_validate B x) = Inl e) \<longrightarrow> es \<noteq> [])"
proof (induction xs arbitrary: i es bs l)
  case Nil
  then show ?case by simp
next
  case (Cons x xs)
  obtain r lx where bx: "Book_validate B x = (r, lx)" by (cases "Book_validate B x")
  obtain r' l' where rest: "validate_items B (Suc i) xs = (r', l')"
    by (cases "validate_items B (Suc i) xs")
  show ?case
  proof (cases r)
    case (Inl e)
    show ?thesis
    proof (cases e)
      case OverflowError
      with Cons.prems bx Inl show ?thesis by simp
    next
      case (ValidationError ex)
      with bx Inl have ne: "ex \<noteq> []" using Book_validate_errors_nonempty by blast
      from Cons.prems bx Inl ValidationError rest obtain es' where
        "r' = Inr (es', bs)" "es = map (\<lambda>(p, f). (Key ''books'' # Idx i # p, f)) ex @ es'"
        by (cases r') (auto split: prod.splits)
      with ne show ?thesis by simp
    qed
  next
    case (Inr b)
    from Cons.prems bx Inr rest obtain bs' where r': "r' = Inr (es, bs')" and bs: "bs = b # bs'"
      by (cases r') (auto split: prod.splits)
    from Cons.IH[of "Suc i" es bs' l'] rest r' bx Inr bs show ?thesis by auto
  qed
qed


text \<open>
  Claim C6. Constructing a BookCollection from a mapping fails when the key \<open>books\<close>
  is absent, when its value is no list, and when the construction of any element fails
  (an element that is no mapping is one); a failure returns no collection at all. When
  it succeeds, \<open>get_entities\<close> is the list of the Books constructed from the elements,
  in the order of the input.
\<close>

theorem BookCollection_all_or_nothing:
  "(map_of kvs ''books'' = None \<longrightarrow>
      (\<exists>es. BookCollection_validate B (PDict kvs) = (Inl (ValidationError es), [])))
   \<and> (map_of kvs ''books'' = Some v \<longrightarrow> (\<forall>xs. v \<noteq> PList xs) \<longrightarrow>
      (\<exists>es. BookCollection_validate B (PDict kvs) = (Inl (ValidationError es), [])))
   \<and> (map_of kvs ''books'' = Some (PList xs) \<longrightarrow>
        (\<exists>x \<in> set xs. \<exists>e. fst (Book_validate B x) = Inl e) \<longrightarrow>
      (\<exists>e. fst (BookCollection_validate B (PDict kvs)) = Inl e))
   \<and> (BookCollection_validate B data = (Inr c, l) \<longrightarrow>
      (\<exists>R ys. data = PDict R \<and> map_of R ''books'' = Some (PList ys)
         \<and> map (\<lambda>x. fst (Book_validate B x)) ys = map Inr (get_entities c)))"
proof -
  have a: "\<exists>es. BookCollection_validate B (PDict kvs) = (Inl (ValidationError es), [])"
    if "map_of kvs ''books'' = None"
    using that by (simp add: BookCollection_validate_def)
  have b: "\<exists>es. BookCollection_validate B (PDict kvs) = (Inl (ValidationError es), [])"
    if "map_of kvs ''books'' = Some v" "\<forall>xs. v \<noteq> PList xs"
    using that by (cases v) (simp_all add: BookCollection_validate_def)
  have c: "\<exists>e. fst (BookCollection_validate B (PDict kvs)) = Inl e"
    if k: "map_of kvs ''books'' = Some (PList xs)"
      and f: "\<exists>x \<in> set xs. \<exists>e. fst (Book_validate B x) = Inl e"
  proof -
    obtain r lg where v: "validate_items B 0 xs = (r, lg)" by (cases "validate_items B 0 xs")
    show ?thesis
    proof (cases r)
      case (Inl e)
      with k v show ?thesis by (simp add: BookCollection_validate_def)
    next
      case (Inr p)
      obtain es bs where p: "p = (es, bs)" by (cases p)
      from validate_items_Inr[of B 0 xs es bs lg] v Inr p f have "es \<noteq> []" by blast
      with k v Inr p show ?thesis by (simp add: BookCollection_validate_def)
    qed
  qed
  have d: "\<exists>R ys. data = PDict R \<and> map_of R ''books'' = Some (PList ys)
         \<and> map (\<lambda>x. fst (Book_validate B x)) ys = map Inr (get_entities c)"
    if ok: "BookCollection_validate B data = (Inr c, l)"
  proof -
    from ok obtain R where R: "data = PDict R"
      by (cases data) (simp_all add: BookCollection_validate_def)
    from ok R obtain w where w: "map_of R ''books'' = Some w"
      by (cases "map_of R ''books''") (simp_all add: BookCollection_validate_def)
    from ok R w obtain ys where ys: "w = PList ys"
      by (cases w) (simp_all add: BookCollection_validate_def)
    obtain r lg where v: "validate_items B 0 ys = (r, lg)" by (cases "validate_items B 0 ys")
    from ok R w ys v obtain es bs where r: "r = Inr (es, bs)"
      by (cases r) (auto simp: BookCollection_validate_def)
    from ok R w ys v r have e: "es = []" and bs: "c = \<lparr>books = bs\<rparr>"
      by (auto simp: BookCollection_validate_def split: if_splits)
    from validate_items_Inr[of B 0 ys es bs lg] v r e
    have "map (\<lambda>x. fst (Book_validate B x)) ys = map Inr bs" by simp
    with R w ys bs show ?thesis by (simp add: get_entities_def)
  qed
  from a b c d show ?thesis by blast
qed

lemma hobbit_collection:
  "BookCollection_validate plain_floats (PDict [(''books'', PList [PDict hobbit_record])])
     = (Inr \<lparr>books = [hobbit_book]\<rparr>, [])"
  by (simp add: BookCollection_validate_def scenario_A)

lemma not_an_object:
  "Book_validate plain_floats (PStr ''not-an-object'') = (Inl (ValidationError [([], Model_type)]), [])"
  by (rule Book_validate_not_dict) simp

theorem BookCollection_all_or_nothing_witness:
  "map_of [(''albums'', PList [])] ''books'' = None
   \<and> map_of [(''books'', PInt 3)] ''books'' = Some (PInt 3)
   \<and> map_of [(''books'', PList [PStr ''not-an-object''])] ''books''
       = Some (PList [PStr ''not-an-object''])
   \<and> fst (Book_validate plain_floats (PStr ''not-an-object''))
       = Inl (ValidationError [([], Model_type)])
   \<and> (\<exists>e. fst (BookCollection_validate plain_floats
               (PDict [(''books'', PList [PStr ''not-an-object''])])) = Inl e)
   \<and> BookCollection_validate plain_floats (PDict [(''books'', PList [PDict hobbit_record])])
       = (Inr \<lparr>books = [hobbit_book]\<rparr>, [])
   \<and> map (\<lambda>x. fst (Book_validate plain_floats x)) [PDict hobbit_record]
       = map Inr (get_entities \<lparr>books = [hobbit_book]\<rparr>)"
proof -
  have n: "fst (Book_validate plain_floats (PStr ''not-an-object''))
       = Inl (ValidationError [([], Model_type)])"
    by (simp add: not_an_object)
  from BookCollection_all_or_nothing[of "[(''books'', PList [PStr ''not-an-object''])]"
      plain_floats "PInt 3" "[PStr ''not-an-object'']"
      "PDict [(''books'', PList [PDict hobbit_record])]" "\<lparr>books = [hobbit_book]\<rparr>" "[]"]
    n hobbit_collection
  have f: "\<exists>e. fst (BookCollection_validate plain_floats
               (PDict [(''books'', PList [PStr ''not-an-object''])])) = Inl e"
    and g: "map (\<lambda>x. fst (Book_validate plain_floats x)) [PDict hobbit_record]
       = map Inr (get_entities \<lparr>books = [hobbit_book]\<rparr>)"
    by auto
  from n f g hobbit_collection show ?thesis by simp
qed

subsection \<open>The name of a Book\<close>

lemma nat_digits_nonempty: "nat_digits n \<noteq> []"
  by (subst nat_digits.simps) simp

lemma py_str_nonempty:
  assumes "\<forall>f. float_repr B f \<noteq> []" "v \<noteq> PStr []"
  shows "py_str B v \<noteq> []"
  using assms
  by (cases v)
    (simp_all add: int_repr_def nat_digits_nonempty str_repr_def date_iso_def Let_def
      )

lemma handle_string_fields_nonempty:
  assumes "\<forall>f. float_repr B f \<noteq> []" "handle_string_fields B v = Some n"
  shows "n \<noteq> []"
proof (cases "\<exists>s. v = PStr s")
  case True
  with assms(2) show ?thesis using handle_string_fields_normal by blast
next
  case False
  then have "v \<noteq> PStr []" by blast
  from py_str_nonempty[OF assms(1) this] assms(2) False show ?thesis
    by (cases v) (auto simp: handle_string_fields_def split: if_splits)
qed

lemma handle_string_fields_sentinel:
  "handle_string_fields B (PStr ''Untitled Book'') = Some ''Untitled Book''"
  by (simp add: handle_string_fields_def strip_def lstrip_def rstrip_def is_space_def)

lemma name_source_cases:
  "name_source R = PStr ''Untitled Book'' \<or> map_of R ''title'' = Some (name_source R)
   \<or> map_of R ''name'' = Some (name_source R)"
  by (simp add: name_source_def split: option.splits)

text \<open>
  Claim C10, as amended. The name of a constructed Book is not empty. It is what the
  string normaliser makes of the value the model validator chose: the title when there
  is one and it is true, else the name when there is one and it is true, else the
  sentinel, which gives the name ``Untitled Book''. When that value is a string, the name
  has no whitespace at either end, no two whitespace characters in a row, and no
  whitespace but plain spaces. (That \<^verbatim>\<open>repr\<close> of a float is never empty is a fact of
  the interpreter, assumed of the float environment.)
\<close>

theorem Book_name_normal:
  assumes "Book_validate B data = (Inr b, l)" and "\<forall>f. float_repr B f \<noteq> []"
  shows "name b \<noteq> []
    \<and> (\<exists>R. data = PDict R \<and> handle_string_fields B (name_source R) = Some (name b)
         \<and> (name_source R = PStr ''Untitled Book'' \<and> name b = ''Untitled Book''
             \<or> map_of R ''title'' = Some (name_source R)
             \<or> map_of R ''name'' = Some (name_source R))
         \<and> ((\<exists>s. name_source R = PStr s) \<longrightarrow>
               no_leading_ws (name b) \<and> no_trailing_ws (name b) \<and> no_doubled_ws (name b)
               \<and> only_plain_spaces (name b)))"
proof -
  from Book_validate_Inr[OF assms(1)] obtain R where R: "data = PDict R"
    and h: "handle_string_fields B (name_source R) = Some (name b)" by blast
  from handle_string_fields_nonempty[OF assms(2) h] have ne: "name b \<noteq> []" .
  have src: "name_source R = PStr ''Untitled Book'' \<and> name b = ''Untitled Book''
             \<or> map_of R ''title'' = Some (name_source R)
             \<or> map_of R ''name'' = Some (name_source R)"
    using name_source_cases[of R] h handle_string_fields_sentinel[of B] by auto
  have norm: "no_leading_ws (name b) \<and> no_trailing_ws (name b) \<and> no_doubled_ws (name b)
               \<and> only_plain_spaces (name b)" if "\<exists>s. name_source R = PStr s"
    using that h handle_string_fields_normal by metis
  from R h ne src norm show ?thesis by blast
qed

theorem Book_name_normal_witness:
  "Book_validate plain_floats (PDict hobbit_record) = (Inr hobbit_book, [])
   \<and> (\<forall>f. float_repr plain_floats f \<noteq> [])
   \<and> name hobbit_book \<noteq> []"
proof -
  have f: "\<forall>f. float_repr plain_floats f \<noteq> []" by (simp add: plain_floats_def)
  from Book_name_normal[OF scenario_A f] have "name hobbit_book \<noteq> []" by (rule conjunct1)
  with scenario_A f show ?thesis by blast
qed

text \<open>
  Claim C10 as stated fails: a title that is a list is given to \<^verbatim>\<open>str\<close> and not
  normalised, so the two spaces inside it stay in the name.
\<close>

theorem Book_name_normal_counterexample:
  "\<exists>b. Book_validate plain_floats (PDict [(''title'', PList [PStr ''a  b''])]) = (Inr b, [])
       \<and> name b = [CHR ''['', CHR 0x27, CHR ''a'', CHR 0x20, CHR 0x20, CHR ''b'', CHR 0x27, CHR '']'']
       \<and> \<not> no_doubled_ws (name b)"
  unfolding Book_validate_PDict
  by (simp add: field_def name_source_def handle_string_fields_def str_repr_def escape_char_def
      printable_def is_space_def Let_def)

subsection \<open>Where construction fails, and the fields on other input\<close>

lemma blank_string_None:
  "strip s = [] \<Longrightarrow> handle_string_fields B (PStr s) = None"
  by (simp add: handle_string_fields_def)

text \<open>
  Claim C2 does not hold of the code. A record whose title is three spaces is a mapping,
  and its construction fails: the model validator takes the title for the name because
  it is a non-empty string, the validator of \<open>name\<close> turns it into \<open>None\<close>, and
  \<open>name\<close> is declared \<^verbatim>\<open>str\<close>.
\<close>

theorem whitespace_title_fails:
  "Book_validate B (PDict [(''title'', PStr ''   '')])
     = (Inl (ValidationError [([Key ''name''], String_type)]), [])"
  unfolding Book_validate_PDict
  by (simp add: field_def name_source_def handle_string_fields_def strip_def lstrip_def
      rstrip_def is_space_def)

text \<open>
  Claim C3 does not hold of the code. Whenever the title is a string that is not empty
  and is empty once stripped, no Book is constructed, so no name is the sentinel.
\<close>

theorem blank_title_no_book:
  assumes "map_of R ''title'' = Some (PStr s)" "s \<noteq> []" "strip s = []"
  shows "\<exists>e. fst (Book_validate B (PDict R)) = Inl e"
proof -
  from assms(1,2) have "name_source R = PStr s" by (simp add: name_source_def)
  with assms(3) have "handle_string_fields B (name_source R) = None"
    by (simp add: blank_string_None)
  then show ?thesis
    unfolding Book_validate_PDict by (simp split: prod.splits sum.splits)
qed

theorem blank_title_no_book_witness:
  "map_of [(''title'', PStr ''   '')] ''title'' = Some (PStr ''   '') \<and> ''   '' \<noteq> []
   \<and> strip ''   '' = []
   \<and> (\<exists>e. fst (Book_validate plain_floats (PDict [(''title'', PStr ''   '')])) = Inl e)"
proof -
  have a: "map_of [(''title'', PStr ''   '')] ''title'' = Some (PStr ''   '')" by simp
  have b: "''   '' \<noteq> []" by simp
  have c: "strip ''   '' = []" by (simp add: strip_def lstrip_def rstrip_def is_space_def)
  from blank_title_no_book[OF a b c, of plain_floats] a b c show ?thesis by blast
qed

text \<open>
  Claim C7 does not hold of the code. \<^verbatim>\<open>int\<close> of an infinite float raises an
  OverflowError, which the validator of \<open>pages\<close> does not catch: the value gives
  neither null nor a warning, and the construction of the Book ends with the exception.
\<close>

theorem pages_infinity_raises:
  "handle_pages_field (PFloat (FInf True)) = (Inl OverflowError, [])
   \<and> Book_validate B (PDict [(''pages'', PFloat (FInf True))]) = (Inl OverflowError, [])"
  unfolding Book_validate_PDict
  by (simp add: field_def handle_pages_field_def)


lemma pages_examples:
  "handle_pages_field (PStr ''0'') = (Inr None, [])"
  "handle_pages_field (PStr ''-5'') = (Inr None, [])"
  "handle_pages_field (PStr ''abc'') = (Inr None, [Cannot_parse_pages (PStr ''abc'')])"
  "handle_pages_field (PStr ''310'') = (Inr (Some 310), [])"
  by (simp_all add: handle_pages_field_def int_of_str_def int_space_def dec_literal_def digit_of_def)

text \<open>
  The page count on every other value: null and the empty string give null without a
  warning; a value on which \<^verbatim>\<open>int\<close> raises a ValueError or a TypeError gives null
  and one warning; a value that \<^verbatim>\<open>int\<close> converts gives the integer when it is
  positive and null otherwise.
\<close>

theorem handle_pages_field_cases:
  "handle_pages_field PNone = (Inr None, [])
   \<and> handle_pages_field (PStr []) = (Inr None, [])
   \<and> (v \<noteq> PNone \<longrightarrow> v \<noteq> PStr [] \<longrightarrow> py_int v = ValueError \<or> py_int v = TypeError \<longrightarrow>
        handle_pages_field v = (Inr None, [Cannot_parse_pages v]))
   \<and> (v \<noteq> PNone \<longrightarrow> v \<noteq> PStr [] \<longrightarrow> py_int v = Conv n \<longrightarrow>
        handle_pages_field v = (Inr (if 0 < n then Some n else None), []))
   \<and> handle_pages_field (PStr ''0'') = (Inr None, [])
   \<and> handle_pages_field (PStr ''-5'') = (Inr None, [])
   \<and> handle_pages_field (PStr ''abc'') = (Inr None, [Cannot_parse_pages (PStr ''abc'')])
   \<and> handle_pages_field (PStr ''310'') = (Inr (Some 310), [])"
proof -
  have a: "handle_pages_field PNone = (Inr None, [])" "handle_pages_field (PStr []) = (Inr None, [])"
    by (simp_all add: handle_pages_field_def)
  have b: "handle_pages_field v = (Inr None, [Cannot_parse_pages v])"
    if "v \<noteq> PNone" "v \<noteq> PStr []" "py_int v = ValueError \<or> py_int v = TypeError"
    using that by (auto simp: handle_pages_field_def)
  have c: "handle_pages_field v = (Inr (if 0 < n then Some n else None), [])"
    if "v \<noteq> PNone" "v \<noteq> PStr []" "py_int v = Conv n"
    using that by (simp add: handle_pages_field_def)
  from a b c pages_examples show ?thesis by blast
qed

theorem handle_pages_field_cases_witness:
  "PStr ''310'' \<noteq> PNone \<and> PStr ''310'' \<noteq> PStr [] \<and> py_int (PStr ''310'') = Conv 310
   \<and> handle_pages_field (PStr ''310'') = (Inr (Some 310), [])
   \<and> py_int (PList []) = TypeError
   \<and> handle_pages_field (PList []) = (Inr None, [Cannot_parse_pages (PList [])])"
proof -
  have a: "py_int (PStr ''310'') = Conv 310"
    by (simp add: int_of_str_def int_space_def dec_literal_def digit_of_def)
  from handle_pages_field_cases[of "PStr ''310''" 310] a
  have b: "handle_pages_field (PStr ''310'') = (Inr (Some 310), [])" by simp
  from handle_pages_field_cases[of "PList []" 0]
  have c: "handle_pages_field (PList []) = (Inr None, [Cannot_parse_pages (PList [])])" by simp
  from a b c show ?thesis by simp
qed

text \<open>
  The name of a constructed Book: a title that is a string and not empty once stripped
  is, normalised, both the title and the name; with no title (or a null or empty one)
  and no name (or a null or empty one) the name is the sentinel.
\<close>

theorem title_name_reconciliation:
  assumes "Book_validate B (PDict R) = (Inr b, l)"
  shows "(\<forall>s. map_of R ''title'' = Some (PStr s) \<longrightarrow> strip s \<noteq> [] \<longrightarrow>
            name b = collapse_ws (strip s) \<and> title b = Some (name b))
    \<and> (map_of R ''title'' \<in> {None, Some PNone, Some (PStr [])} \<longrightarrow>
        map_of R ''name'' \<in> {None, Some PNone, Some (PStr [])} \<longrightarrow> name b = ''Untitled Book'')"
proof -
  from Book_validate_Inr[OF assms] have h: "handle_string_fields B (name_source R) = Some (name b)"
    and t: "title b = field R ''title'' None (handle_string_fields B)" by simp_all
  have a: "name b = collapse_ws (strip s) \<and> title b = Some (name b)"
    if "map_of R ''title'' = Some (PStr s)" "strip s \<noteq> []" for s
  proof -
    from that have s: "s \<noteq> []" by (auto simp: strip_def lstrip_def rstrip_def)
    with that(1) have "name_source R = PStr s" by (simp add: name_source_def)
    with h have hs: "handle_string_fields B (PStr s) = Some (name b)" by simp
    with handle_string_fields_normal[OF hs] t that(1) show ?thesis by (simp add: field_def)
  qed
  have b: "name b = ''Untitled Book''"
    if "map_of R ''title'' \<in> {None, Some PNone, Some (PStr [])}"
       "map_of R ''name'' \<in> {None, Some PNone, Some (PStr [])}"
  proof -
    from that have "name_source R = PStr ''Untitled Book''"
      by (auto simp: name_source_def)
    with h handle_string_fields_sentinel[of B] show ?thesis by simp
  qed
  from a b show ?thesis by blast
qed

lemma empty_record:
  "Book_validate B (PDict []) =
     (Inr \<lparr>name = ''Untitled Book'', title = None, authors = [], isbn = None,
           publication_date = None, pages = None, price = None, description = None,
           cover_image_url = None, purchase_url = None, publisher = None, genre = None,
           language = None, format = None, raw_metadata = []\<rparr>, [])"
  unfolding Book_validate_PDict
  by (simp add: field_def name_source_def handle_string_fields_sentinel extract_raw_def)

theorem title_name_reconciliation_witness:
  "Book_validate plain_floats (PDict hobbit_record) = (Inr hobbit_book, [])
   \<and> map_of hobbit_record ''title'' = Some (PStr '' The Hobbit '')
   \<and> strip '' The Hobbit '' \<noteq> []
   \<and> name hobbit_book = ''The Hobbit''
   \<and> (\<exists>b. Book_validate plain_floats (PDict []) = (Inr b, []) \<and> name b = ''Untitled Book'')"
proof -
  have a: "map_of hobbit_record ''title'' = Some (PStr '' The Hobbit '')"
    by (simp add: hobbit_record_def)
  have b: "strip '' The Hobbit '' = ''The Hobbit''"
    by (simp add: strip_def lstrip_def rstrip_def is_space_def)
  have c: "name hobbit_book = ''The Hobbit''" by (simp add: hobbit_book_def)
  have d: "\<exists>b. Book_validate plain_floats (PDict []) = (Inr b, []) \<and> name b = ''Untitled Book''"
    using empty_record[of plain_floats] by simp
  from title_name_reconciliation[OF scenario_A] a b c d scenario_A show ?thesis by simp
qed

text \<open>
  The authors of the specification's examples.
\<close>

theorem handle_authors_field_examples:
  "handle_authors_field B PNone = []
   \<and> handle_authors_field B (PStr ''J.R.R. Tolkien'') = [''J.R.R. Tolkien'']
   \<and> handle_authors_field B (PStr ''A, B; C'') = [''A'', ''B'', ''C'']
   \<and> handle_authors_field B (PList [PStr ''  Anna  '', PStr []]) = [''Anna'']"
  by (simp add: handle_authors_field_def strip_def lstrip_def rstrip_def is_space_def)

end
